theory Spec2Isabelle
  imports Complex_Main "HOL-Library.Sublist"
begin

section \<open>Python strings\<close>

text \<open>
  A Python \<open>str\<close> is a sequence of Unicode code points; it is modelled as the list of
  those code points.  \<open>py\<close> turns an ASCII literal into such a list.
\<close>

type_synonym pystr = "nat list"

definition py :: "string \<Rightarrow> pystr" where
  "py s = map of_char s"

text \<open>
  The code points for which \<open>str.isspace\<close> holds; \<open>str.strip()\<close> without an argument
  removes exactly these from both ends.
\<close>

definition is_space :: "nat \<Rightarrow> bool" where
  "is_space c \<longleftrightarrow>
     (9 \<le> c \<and> c \<le> 13) \<or> (28 \<le> c \<and> c \<le> 32) \<or> c = 133 \<or> c = 160 \<or> c = 5760 \<or>
     (8192 \<le> c \<and> c \<le> 8202) \<or> c = 8232 \<or> c = 8233 \<or> c = 8239 \<or> c = 8287 \<or> c = 12288"

definition lstrip :: "pystr \<Rightarrow> pystr" where
  "lstrip s = dropWhile is_space s"

definition rstrip :: "pystr \<Rightarrow> pystr" where
  "rstrip s = rev (dropWhile is_space (rev s))"

definition strip :: "pystr \<Rightarrow> pystr" where
  "strip s = rstrip (lstrip s)"

text \<open>\<open>s.replace(c, '')\<close> for a one-character string \<open>c\<close>: every occurrence is dropped.\<close>

definition remove_char :: "char \<Rightarrow> pystr \<Rightarrow> pystr" where
  "remove_char c s = filter (\<lambda>x. x \<noteq> of_char c) s"

definition startswith :: "pystr \<Rightarrow> pystr \<Rightarrow> bool" where
  "startswith s p \<longleftrightarrow> take (length p) s = p"

section \<open>Phone numbers\<close>

text \<open>
  \<open>WhatsAppBulkSender.format_phone_number\<close>.  The argument is the text \<open>str(phone)\<close>
  of the cell.
\<close>

definition remove_separators :: "pystr \<Rightarrow> pystr" where
  "remove_separators s =
     remove_char CHR '')'' (remove_char CHR ''('' (remove_char CHR '' '' (remove_char CHR ''-'' s)))"

definition format_phone_number :: "pystr \<Rightarrow> pystr" where
  "format_phone_number phone =
     (let phone1 = strip phone;
          phone2 = remove_separators phone1
      in if \<not> startswith phone2 (py ''+'') then
           (if \<not> startswith phone2 (py ''91'') then py ''+91'' @ phone2
            else py ''+'' @ phone2)
         else phone2)"

section \<open>Contacts and message templates\<close>

text \<open>
  A contact is one row of the CSV as a Python dict from column name to cell.  Every cell
  is represented by its text (\<open>str(cell)\<close>, which is also what \<open>str.format\<close> inserts for
  a field without a format specification).
\<close>

type_synonym contact = "pystr \<rightharpoonup> pystr"

text \<open>\<open>contact.get(key, default)\<close>.\<close>

definition dict_get :: "contact \<Rightarrow> pystr \<Rightarrow> pystr \<Rightarrow> pystr" where
  "dict_get c k d = (case c k of None \<Rightarrow> d | Some v \<Rightarrow> v)"

text \<open>
  The exceptions of \<open>message.format(**contact)\<close>: a named field that is no key of the
  dict (\<open>KeyError\<close> with the key), a positional or automatically numbered field, for which
  there is no positional argument (\<open>IndexError\<close>), a lone brace or an unclosed field
  (\<open>ValueError\<close>), and whatever the extended field syntax raises (\<open>FieldError\<close>).
\<close>

datatype format_error = KeyError pystr | IndexError | ValueError | FieldError

text \<open>
  The text of a replacement field, read after its opening brace up to the first closing
  brace.  A field is plain when it is made of ASCII characters other than
  \<open>{ [ . ! :\<close>; such a field is a key of the dict, or a number.
\<close>

datatype field_scan = Plain pystr pystr | Extended | Unclosed

definition extended_char :: "nat \<Rightarrow> bool" where
  "extended_char x \<longleftrightarrow>
     x = of_char CHR ''{'' \<or> x = of_char CHR ''['' \<or> x = of_char CHR ''.'' \<or>
     x = of_char CHR ''!'' \<or> x = of_char CHR '':'' \<or> 128 \<le> x"

fun scan_field :: "pystr \<Rightarrow> field_scan" where
  "scan_field [] = Unclosed"
| "scan_field (x # xs) =
     (if x = of_char CHR ''}'' then Plain [] xs
      else if extended_char x then Extended
      else (case scan_field xs of
              Plain f r \<Rightarrow> Plain (x # f) r
            | Extended \<Rightarrow> Extended
            | Unclosed \<Rightarrow> Unclosed))"

definition is_digit :: "nat \<Rightarrow> bool" where
  "is_digit x \<longleftrightarrow> of_char CHR ''0'' \<le> x \<and> x \<le> of_char CHR ''9''"

text \<open>Prepending already formatted text to the result of formatting the rest.\<close>

definition emit :: "pystr \<Rightarrow> format_error + pystr \<Rightarrow> format_error + pystr" where
  "emit out r = (case r of Inl e \<Rightarrow> Inl e | Inr t \<Rightarrow> Inr (out @ t))"

lemma scan_field_shorter: "scan_field xs = Plain f r \<Longrightarrow> length r < Suc (length xs)"
  by (induction xs arbitrary: f r) (auto split: if_splits field_scan.splits)

text \<open>
  \<open>template.format(**c)\<close>, scanned from left to right as CPython does: doubled braces
  are literal braces, a lone \<open>}\<close> and a \<open>{\<close> at the end are errors, a plain field is
  looked up in the dict.  From the first field that uses a conversion, a format
  specification, an attribute, an index, a nested brace or a non-ASCII name onwards, the
  result is what the parameter \<open>ext\<close> gives for the rest of the template (\<open>None\<close> when
  Python raises there): that part of the library is not modelled.
\<close>

function str_format ::
  "(pystr \<Rightarrow> contact \<Rightarrow> pystr option) \<Rightarrow> pystr \<Rightarrow> contact \<Rightarrow> format_error + pystr" where
  "str_format ext [] c = Inr []"
| "str_format ext (x # xs) c =
     (if x = of_char CHR ''}'' then
        (case xs of
           [] \<Rightarrow> Inl ValueError
         | y # ys \<Rightarrow> if y = of_char CHR ''}'' then emit [y] (str_format ext ys c)
                     else Inl ValueError)
      else if x = of_char CHR ''{'' then
        (case xs of
           [] \<Rightarrow> Inl ValueError
         | y # ys \<Rightarrow>
             if y = of_char CHR ''{'' then emit [y] (str_format ext ys c)
             else (case scan_field xs of
                     Unclosed \<Rightarrow> Inl ValueError
                   | Extended \<Rightarrow>
                       (case ext (x # xs) c of None \<Rightarrow> Inl FieldError | Some t \<Rightarrow> Inr t)
                   | Plain f r \<Rightarrow>
                       if f = [] \<or> list_all is_digit f then Inl IndexError
                       else (case c f of
                               None \<Rightarrow> Inl (KeyError f)
                             | Some v \<Rightarrow> emit v (str_format ext r c))))
      else emit [x] (str_format ext xs c))"
  by pat_completeness auto
termination
  by (relation "measure (\<lambda>(ext, t, c). length t)") (auto dest!: scan_field_shorter simp del: scan_field.simps)

section \<open>The sender, the browser and the world\<close>

text \<open>The dicts appended to \<open>sent_messages\<close> and \<open>failed_messages\<close>.\<close>

record sent_entry =
  sent_name :: pystr
  sent_phone :: pystr
  sent_timestamp :: nat
  sent_status :: pystr

record failed_entry =
  failed_name :: pystr
  failed_phone :: pystr
  failed_timestamp :: nat
  failed_error :: pystr

text \<open>
  The fields of a \<open>WhatsAppBulkSender\<close>.  \<open>driver\<close> is \<open>None\<close> or the handle of a browser
  process.
\<close>

record sender =
  csv_file :: pystr
  wait_time :: int
  contacts :: "contact list"
  sent_messages :: "sent_entry list"
  failed_messages :: "failed_entry list"
  driver :: "nat option"

text \<open>\<open>WhatsAppBulkSender.__init__\<close>.\<close>

definition init :: "pystr \<Rightarrow> int \<Rightarrow> sender" where
  "init csv wt =
     \<lparr>csv_file = csv, wait_time = wt, contacts = [], sent_messages = [],
      failed_messages = [], driver = None\<rparr>"

text \<open>
  What the program cannot decide: how the browser answers.  \<open>launch\<close> says what happens
  when \<open>open_whatsapp_web\<close> is the \<open>n\<close>-th interaction with the outside: Chrome does not
  start (\<open>webdriver.Chrome\<close> raises), Chrome starts but loading the page or the wait for
  the QR scan raises, or the session is authenticated.  \<open>chat\<close> says what happens when
  \<open>send_message\<close> is the \<open>n\<close>-th interaction and opens the given URL: \<open>None\<close> when the
  Send button was found and clicked, \<open>Some t\<close> when \<open>driver.get\<close>, the wait,
  \<open>find_element\<close> or \<open>click\<close> raised an exception \<open>e\<close> with \<open>str(e) = t\<close>.  \<open>clock\<close> is
  what \<open>datetime.now()\<close> reads after \<open>n\<close> interactions, and \<open>fmt_ext\<close> is the parameter of
  \<open>str_format\<close>.
\<close>

datatype launch_outcome = LaunchFails | AuthFails | AuthOk

record env =
  launch :: "nat \<Rightarrow> launch_outcome"
  chat :: "nat \<Rightarrow> pystr \<Rightarrow> pystr option"
  clock :: "nat \<Rightarrow> nat"
  fmt_ext :: "pystr \<Rightarrow> contact \<Rightarrow> pystr option"

text \<open>
  The effects on the outside: the browser processes that are running, the number of
  interactions so far, and the trace of chat attempts and pauses in the order they
  happened.
\<close>

datatype event = Chat pystr "pystr option" | Pause int

record world =
  live :: "nat list"
  next_handle :: nat
  tick :: nat
  trace :: "event list"

text \<open>
  \<open>time.sleep(secs)\<close> for an \<open>int\<close>, as in CPython 3.8 to 3.12: the length is converted
  to nanoseconds first, which raises \<open>OverflowError\<close> when they do not fit 64 bits; then
  a negative length raises \<open>ValueError\<close>; otherwise the program pauses.
\<close>

datatype sleep_error = NegativeSleep | SleepOverflow

definition sleep_error_text :: "sleep_error \<Rightarrow> pystr" where
  "sleep_error_text e =
     (case e of
        NegativeSleep \<Rightarrow> py ''sleep length must be non-negative''
      | SleepOverflow \<Rightarrow> py ''timestamp too large to convert to C _PyTime_t'')"

definition time_sleep :: "int \<Rightarrow> world \<Rightarrow> sleep_error + world" where
  "time_sleep secs w =
     (if secs < - 9223372036 \<or> 9223372036 < secs then Inl SleepOverflow
      else if secs < 0 then Inl NegativeSleep
      else Inr (w\<lparr>trace := trace w @ [Pause secs]\<rparr>))"

text \<open>\<open>driver.quit()\<close>: the process ends.  Chrome's \<open>quit\<close> swallows its own errors.\<close>

definition driver_quit :: "nat \<Rightarrow> world \<Rightarrow> world" where
  "driver_quit h w = w\<lparr>live := remove1 h (live w)\<rparr>"

text \<open>
  \<open>close_browser\<close>: \<open>if self.driver: self.driver.quit(); self.driver = None\<close>.  The
  \<open>finally\<close> block of \<open>send_bulk_messages\<close> runs the same statements, and so does the
  exception handler of \<open>open_whatsapp_web\<close>, whose assignment of \<open>None\<close> outside the
  \<open>if\<close> changes nothing when the field is \<open>None\<close> already.
\<close>

definition close_browser :: "sender \<times> world \<Rightarrow> sender \<times> world" where
  "close_browser sw =
     (case sw of (s, w) \<Rightarrow>
        (case driver s of
           None \<Rightarrow> (s, w)
         | Some h \<Rightarrow> (s\<lparr>driver := None\<rparr>, driver_quit h w)))"

text \<open>\<open>self.driver = webdriver.Chrome(options=chrome_options)\<close> when Chrome starts.\<close>

definition start_chrome :: "sender \<times> world \<Rightarrow> sender \<times> world" where
  "start_chrome sw =
     (case sw of (s, w) \<Rightarrow>
        (s\<lparr>driver := Some (next_handle w)\<rparr>,
         w\<lparr>live := next_handle w # live w, next_handle := Suc (next_handle w),
           tick := Suc (tick w)\<rparr>))"

text \<open>\<open>open_whatsapp_web\<close>: the returned flag and the new state.\<close>

definition open_whatsapp_web :: "env \<Rightarrow> sender \<times> world \<Rightarrow> bool \<times> sender \<times> world" where
  "open_whatsapp_web e sw =
     (case sw of (s, w) \<Rightarrow>
        (case launch e (tick w) of
           LaunchFails \<Rightarrow> (False, close_browser (s, w\<lparr>tick := Suc (tick w)\<rparr>))
         | AuthFails \<Rightarrow> (False, close_browser (start_chrome (s, w)))
         | AuthOk \<Rightarrow> (True, start_chrome (s, w))))"

text \<open>The \<open>except\<close> branch of \<open>send_message\<close>: the raw phone number is recorded.\<close>

definition send_failed ::
  "env \<Rightarrow> pystr \<Rightarrow> pystr \<Rightarrow> pystr \<Rightarrow> sender \<times> world \<Rightarrow> bool \<times> sender \<times> world" where
  "send_failed e phone name error_msg sw =
     (case sw of (s, w) \<Rightarrow>
        (False,
         s\<lparr>failed_messages := failed_messages s @
             [\<lparr>failed_name = name, failed_phone = phone,
               failed_timestamp = clock e (tick w), failed_error = error_msg\<rparr>]\<rparr>,
         w))"

text \<open>\<open>send_message(phone, message, name)\<close>.\<close>

definition send_message ::
  "env \<Rightarrow> pystr \<Rightarrow> pystr \<Rightarrow> pystr \<Rightarrow> sender \<times> world \<Rightarrow> bool \<times> sender \<times> world" where
  "send_message e phone message name sw =
     (case sw of (s, w) \<Rightarrow>
        (case driver s of
           None \<Rightarrow> (False, s, w)
         | Some h \<Rightarrow>
             (let formatted_phone = format_phone_number phone;
                  chat_url = py ''https://web.whatsapp.com/send/?phone='' @ formatted_phone
                               @ py ''&text='' @ message;
                  answer = chat e (tick w) chat_url;
                  w1 = w\<lparr>tick := Suc (tick w), trace := trace w @ [Chat chat_url answer]\<rparr>
              in case answer of
                   Some error_msg \<Rightarrow> send_failed e phone name error_msg (s, w1)
                 | None \<Rightarrow>
                     (let s1 = s\<lparr>sent_messages := sent_messages s @
                                 [\<lparr>sent_name = name, sent_phone = formatted_phone,
                                   sent_timestamp = clock e (tick w1),
                                   sent_status = py ''sent''\<rparr>]\<rparr>
                      in case time_sleep (wait_time s1) w1 of
                           Inl err \<Rightarrow> send_failed e phone name (sleep_error_text err) (s1, w1)
                         | Inr w2 \<Rightarrow> (True, s1, w2)))))"

text \<open>
  Python's \<open>a / b\<close> for two lengths: \<open>ZeroDivisionError\<close> when \<open>b\<close> is 0, else the quotient.
  The quotient is the exact one; Python rounds it to a float.
\<close>

datatype zero_division = ZeroDivisionError

definition true_div :: "nat \<Rightarrow> nat \<Rightarrow> zero_division + rat" where
  "true_div a b = (if b = 0 then Inl ZeroDivisionError else Inr (of_nat a / of_nat b))"

text \<open>\<open>q * 100\<close> for a quotient that may have raised.\<close>

definition times_100 :: "zero_division + rat \<Rightarrow> zero_division + rat" where
  "times_100 q = (case q of Inl err \<Rightarrow> Inl err | Inr v \<Rightarrow> Inr (v * 100))"

text \<open>
  The dict returned by a run, built by the \<open>return\<close> statement of \<open>send_bulk_messages\<close>;
  \<open>Inl\<close> when a division in it raises.
\<close>

record run_summary =
  total :: nat
  sent :: nat
  failed :: nat
  success_rate :: rat

definition summary :: "sender \<Rightarrow> zero_division + run_summary" where
  "summary s =
     (case (if contacts s \<noteq> [] then
              times_100 (true_div (length (sent_messages s)) (length (contacts s)))
            else Inr 0) of
        Inl err \<Rightarrow> Inl err
      | Inr rate \<Rightarrow>
          Inr \<lparr>total = length (contacts s),
               sent = length (sent_messages s),
               failed = length (failed_messages s),
               success_rate = rate\<rparr>)"

text \<open>What leaves \<open>send_bulk_messages\<close> as an exception.\<close>

datatype raised =
  FormatRaised format_error | SleepRaised sleep_error | DivisionRaised zero_division

text \<open>
  The \<open>for\<close> loop of \<open>send_bulk_messages\<close> over the contacts that are left; \<open>n\<close> is
  \<open>len(self.contacts)\<close> and \<open>i\<close> the number \<open>enumerate\<close> gives the first of them.  The loop
  ends with \<open>None\<close>, or with the exception that left it.
\<close>

fun send_loop ::
  "env \<Rightarrow> pystr \<Rightarrow> int \<Rightarrow> nat \<Rightarrow> nat \<Rightarrow> contact list \<Rightarrow> sender \<times> world
     \<Rightarrow> raised option \<times> sender \<times> world" where
  "send_loop e message delay_seconds n i [] sw = (None, sw)"
| "send_loop e message delay_seconds n i (contact # rest) sw =
     (let phone = dict_get contact (py ''phone_number'') (py '''');
          name = dict_get contact (py ''name'') (py ''Unknown'')
      in case str_format (fmt_ext e) message contact of
           Inl err \<Rightarrow> (Some (FormatRaised err), sw)
         | Inr personalized_msg \<Rightarrow>
             (case send_message e phone personalized_msg name sw of
                (ok, sw1) \<Rightarrow>
                  if i < n then
                    (case time_sleep delay_seconds (snd sw1) of
                       Inl err \<Rightarrow> (Some (SleepRaised err), sw1)
                     | Inr w2 \<Rightarrow>
                         send_loop e message delay_seconds n (Suc i) rest (fst sw1, w2))
                  else send_loop e message delay_seconds n (Suc i) rest sw1))"

text \<open>
  \<open>send_bulk_messages(message, delay_seconds)\<close>: \<open>Inl\<close> an exception that reaches the
  caller, \<open>Inr None\<close> the return of \<open>None\<close>, \<open>Inr (Some d)\<close> the summary.
\<close>

definition send_bulk_messages ::
  "env \<Rightarrow> pystr \<Rightarrow> int \<Rightarrow> sender \<times> world \<Rightarrow> (raised + run_summary option) \<times> sender \<times> world" where
  "send_bulk_messages e message delay_seconds sw =
     (if contacts (fst sw) = [] then (Inr None, sw)
      else case open_whatsapp_web e sw of
             (opened, sw0) \<Rightarrow>
               if \<not> opened then (Inr None, sw0)
               else (case send_loop e message delay_seconds (length (contacts (fst sw0))) 1
                            (contacts (fst sw0)) sw0 of
                       (exc, sw1) \<Rightarrow>
                         (let sw2 = close_browser sw1
                          in case exc of
                               Some x \<Rightarrow> (Inl x, sw2)
                             | None \<Rightarrow>
                                 (case summary (fst sw2) of
                                    Inl err \<Rightarrow> (Inl (DivisionRaised err), sw2)
                                  | Inr d \<Rightarrow> (Inr (Some d), sw2)))))"

text \<open>\<open>get_report\<close>; \<open>Inl\<close> when the division in it raises.\<close>

record report_summary =
  total_sent :: nat
  total_failed :: nat
  report_success_rate :: rat

record report =
  report_sent :: "sent_entry list"
  report_failed :: "failed_entry list"
  report_summary :: report_summary

definition get_report :: "sender \<Rightarrow> zero_division + report" where
  "get_report s =
     (case (if sent_messages s \<noteq> [] \<or> failed_messages s \<noteq> [] then
              times_100 (true_div (length (sent_messages s))
                           (length (sent_messages s) + length (failed_messages s)))
            else Inr 0) of
        Inl err \<Rightarrow> Inl err
      | Inr rate \<Rightarrow>
          Inr \<lparr>report_sent = sent_messages s,
               report_failed = failed_messages s,
               report_summary =
                 \<lparr>total_sent = length (sent_messages s),
                  total_failed = length (failed_messages s),
                  report_success_rate = rate\<rparr>\<rparr>)"

text \<open>
  The trace a run is expected to leave, given the URL and the answer of each chat
  attempt: after every attempt that was answered by a click a pause of \<open>wait_time\<close>, and
  after every attempt but the last a pause of \<open>delay_seconds\<close>.
\<close>

fun pause_pattern :: "int \<Rightarrow> int \<Rightarrow> (pystr \<times> pystr option) list \<Rightarrow> event list" where
  "pause_pattern wt d [] = []"
| "pause_pattern wt d ((url, answer) # later) =
     Chat url answer # (if answer = None then [Pause wt] else [])
       @ (if later \<noteq> [] then [Pause d] else []) @ pause_pattern wt d later"

section \<open>Row ranges\<close>

text \<open>The Python slice \<open>xs[lo:hi]\<close> of a list, for any two integers.\<close>

definition py_slice :: "'a list \<Rightarrow> int \<Rightarrow> int \<Rightarrow> 'a list" where
  "py_slice xs lo hi =
     (let n = int (length xs);
          a = (if lo < 0 then max 0 (lo + n) else min lo n);
          b = (if hi < 0 then max 0 (hi + n) else min hi n)
      in take (nat (b - a)) (drop (nat a) xs))"

text \<open>\<open>contacts_to_send = sender.contacts[start_row-1:end_row]\<close> of the dashboard.\<close>

definition contacts_to_send :: "contact list \<Rightarrow> int \<Rightarrow> int \<Rightarrow> contact list" where
  "contacts_to_send cs start_row end_row = py_slice cs (start_row - 1) end_row"

section \<open>Example data\<close>

definition asha :: contact where
  "asha = [py ''phone_number'' \<mapsto> py ''9876543210'', py ''name'' \<mapsto> py ''Asha'']"

definition ravi :: contact where
  "ravi = [py ''phone_number'' \<mapsto> py ''91 9876 543210'', py ''name'' \<mapsto> py ''Ravi'']"

definition meena :: contact where
  "meena = [py ''phone_number'' \<mapsto> py ''(98)76543210'', py ''name'' \<mapsto> py ''Meena'']"

definition kiran :: contact where
  "kiran = [py ''phone_number'' \<mapsto> py ''+919876543210'', py ''name'' \<mapsto> py ''Kiran'']"

definition divya :: contact where
  "divya = [py ''phone_number'' \<mapsto> py ''98765-43210'', py ''name'' \<mapsto> py ''Divya'']"

text \<open>A browser in which every session authenticates and every Send button is clicked.\<close>

definition ok_env :: env where
  "ok_env =
     \<lparr>launch = (\<lambda>n. AuthOk), chat = (\<lambda>n url. None), clock = (\<lambda>n. n),
      fmt_ext = (\<lambda>t c. None)\<rparr>"

text \<open>A browser in which the wait for the QR scan times out.\<close>

definition auth_fail_env :: env where
  "auth_fail_env =
     \<lparr>launch = (\<lambda>n. AuthFails), chat = (\<lambda>n url. None), clock = (\<lambda>n. n),
      fmt_ext = (\<lambda>t c. None)\<rparr>"

text \<open>A browser in which the first chat attempt times out and the later ones succeed.\<close>

definition first_fails_env :: env where
  "first_fails_env =
     \<lparr>launch = (\<lambda>n. AuthOk), chat = (\<lambda>n url. if n = 1 then Some (py ''timeout'') else None),
      clock = (\<lambda>n. n), fmt_ext = (\<lambda>t c. None)\<rparr>"

definition world0 :: world where
  "world0 = \<lparr>live = [], next_handle = 0, tick = 0, trace = []\<rparr>"

text \<open>Two calls of \<open>send_bulk_messages\<close> on the same sender, the second for one contact.\<close>

definition first_run :: "(raised + run_summary option) \<times> sender \<times> world" where
  "first_run =
     send_bulk_messages ok_env (py ''Hi {name}'') 5
       ((init [] 2)\<lparr>contacts := [asha, ravi]\<rparr>, world0)"

definition second_run :: "(raised + run_summary option) \<times> sender \<times> world" where
  "second_run =
     send_bulk_messages ok_env (py ''Hi {name}'') 5
       ((fst (snd first_run))\<lparr>contacts := [asha]\<rparr>, snd (snd first_run))"

text \<open>A sender with two contacts, one recorded as sent and one as failed.\<close>

definition half_sent :: sender where
  "half_sent =
     (init [] 2)\<lparr>contacts := [asha, ravi],
       sent_messages := [\<lparr>sent_name = py ''Asha'', sent_phone = py ''+919876543210'',
                          sent_timestamp = 2, sent_status = py ''sent''\<rparr>],
       failed_messages := [\<lparr>failed_name = py ''Ravi'', failed_phone = py ''91 9876 543210'',
                            failed_timestamp = 3, failed_error = py ''timeout''\<rparr>]\<rparr>"

lemmas run_defs =
  init_def asha_def ravi_def ok_env_def world0_def py_def send_bulk_messages_def
  open_whatsapp_web_def start_chrome_def close_browser_def driver_quit_def send_message_def
  send_failed_def time_sleep_def sleep_error_text_def summary_def true_div_def times_100_def
  dict_get_def emit_def
  extended_char_def is_digit_def Let_def

lemmas phone_defs =
  format_phone_number_def remove_separators_def remove_char_def strip_def lstrip_def
  rstrip_def startswith_def is_space_def py_def

section \<open>Formatting a template with a plain field\<close>

text \<open>
  After literal text without braces, a plain field that is no key of the dict makes
  \<open>str_format\<close> fail with \<open>KeyError\<close>, whatever follows the field.
\<close>

lemma scan_field_plain:
  "\<forall>x\<in>set f. x \<noteq> of_char CHR ''}'' \<and> \<not> extended_char x \<Longrightarrow>
     scan_field (f @ of_char CHR ''}'' # r) = Plain f r"
  by (induction f) auto

lemma emit_Nil: "emit [] r = r"
  by (cases r) (simp_all add: emit_def)

lemma emit_Cons: "emit [x] (emit out r) = emit (x # out) r"
  by (cases r) (simp_all add: emit_def)

lemma str_format_literal:
  "\<forall>x\<in>set lit. x \<noteq> of_char CHR ''{'' \<and> x \<noteq> of_char CHR ''}'' \<Longrightarrow>
     str_format ext (lit @ t) c = emit lit (str_format ext t c)"
proof (induction lit)
  case Nil
  then show ?case by (simp add: emit_Nil)
next
  case (Cons x lit)
  then have "str_format ext ((x # lit) @ t) c = emit [x] (str_format ext (lit @ t) c)"
    by simp
  then show ?case using Cons by (simp add: emit_Cons)
qed

lemma str_format_field:
  assumes "f \<noteq> []" and "\<not> list_all is_digit f"
    and "\<forall>x\<in>set f. x \<noteq> of_char CHR ''}'' \<and> \<not> extended_char x"
  shows "str_format ext (of_char CHR ''{'' # f @ of_char CHR ''}'' # r) c
           = (case c f of None \<Rightarrow> Inl (KeyError f) | Some v \<Rightarrow> emit v (str_format ext r c))"
proof -
  obtain y ys where f: "f = y # ys" using assms(1) by (cases f) auto
  have y: "y \<noteq> of_char CHR ''{''" using assms(3) f by (auto simp: extended_char_def)
  have sc: "scan_field (y # ys @ 125 # r) = Plain (y # ys) r"
    using scan_field_plain[OF assms(3), of r] f by simp
  have nd: "\<not> list_all is_digit (y # ys)" using assms(2) f by simp
  show ?thesis
    using y nd sc by (simp add: f del: scan_field.simps list.pred_inject split: option.splits)
qed

lemma str_format_missing_field:
  assumes "\<forall>x\<in>set lit. x \<noteq> of_char CHR ''{'' \<and> x \<noteq> of_char CHR ''}''"
    and "f \<noteq> []" and "\<not> list_all is_digit f"
    and "\<forall>x\<in>set f. x \<noteq> of_char CHR ''}'' \<and> \<not> extended_char x"
    and "c f = None"
  shows "str_format ext (lit @ of_char CHR ''{'' # f @ of_char CHR ''}'' # r) c = Inl (KeyError f)"
  using str_format_literal[OF assms(1)] str_format_field[OF assms(2,3,4)] assms(5)
  by (simp add: emit_def)

section \<open>The divisions are guarded\<close>

text \<open>
  Wherever \<open>summary\<close> and \<open>get_report\<close> divide, the divisor is not 0: both always return
  their dict.
\<close>

lemma summary_returns:
  "summary s =
     Inr \<lparr>total = length (contacts s),
          sent = length (sent_messages s),
          failed = length (failed_messages s),
          success_rate =
            (if contacts s = [] then 0
             else of_nat (length (sent_messages s)) / of_nat (length (contacts s)) * 100)\<rparr>"
  by (simp add: summary_def true_div_def times_100_def)

lemma get_report_returns:
  "get_report s =
     Inr \<lparr>report_sent = sent_messages s,
          report_failed = failed_messages s,
          report_summary =
            \<lparr>total_sent = length (sent_messages s),
             total_failed = length (failed_messages s),
             report_success_rate =
               (if length (sent_messages s) + length (failed_messages s) = 0 then 0
                else of_nat (length (sent_messages s))
                       / of_nat (length (sent_messages s) + length (failed_messages s))
                       * 100)\<rparr>\<rparr>"
  by (simp add: get_report_def true_div_def times_100_def)

section \<open>What each operation changes\<close>

lemma close_browser_fields:
  "close_browser (s, w) = (s', w') \<Longrightarrow>
     driver s' = None \<and> contacts s' = contacts s \<and> wait_time s' = wait_time s \<and>
     sent_messages s' = sent_messages s \<and> failed_messages s' = failed_messages s \<and>
     trace w' = trace w \<and> set (live w') \<subseteq> set (live w) \<and>
     (driver s = None \<longrightarrow> live w' = live w)"
  by (auto simp: close_browser_def driver_quit_def split: option.splits dest: set_remove1_subset[THEN subsetD])

lemma open_whatsapp_web_fields:
  "open_whatsapp_web e (s, w) = (opened, s', w') \<Longrightarrow>
     contacts s' = contacts s \<and> wait_time s' = wait_time s \<and>
     sent_messages s' = sent_messages s \<and> failed_messages s' = failed_messages s \<and>
     trace w' = trace w \<and> (opened \<longleftrightarrow> driver s' \<noteq> None)"
  by (auto simp: open_whatsapp_web_def start_chrome_def close_browser_def driver_quit_def
      split: launch_outcome.splits option.splits)

lemma open_whatsapp_web_failed:
  "open_whatsapp_web e (s, w) = (False, s', w') \<Longrightarrow>
     driver s' = None \<and> set (live w') \<subseteq> set (live w) \<and> (driver s = None \<longrightarrow> live w' = live w)"
  by (auto simp: open_whatsapp_web_def start_chrome_def close_browser_def driver_quit_def
      split: launch_outcome.splits option.splits dest: set_remove1_subset[THEN subsetD])

lemma send_message_fields:
  "send_message e phone message name (s, w) = (ok, s', w') \<Longrightarrow>
     driver s' = driver s \<and> contacts s' = contacts s \<and> wait_time s' = wait_time s \<and>
     live w' = live w \<and>
     prefix (sent_messages s) (sent_messages s') \<and>
     prefix (failed_messages s) (failed_messages s')"
  by (auto simp: send_message_def send_failed_def time_sleep_def Let_def
      split: option.splits sum.splits if_splits)

lemma time_sleep_fields:
  "time_sleep secs w = Inr w' \<Longrightarrow>
     live w' = live w \<and> trace w' = trace w @ [Pause secs] \<and> tick w' = tick w"
  by (auto simp: time_sleep_def split: if_splits)

lemma send_loop_fields:
  "send_loop e m d n i cs (s, w) = (exc, s', w') \<Longrightarrow>
     driver s' = driver s \<and> contacts s' = contacts s \<and> wait_time s' = wait_time s \<and>
     live w' = live w \<and>
     prefix (sent_messages s) (sent_messages s') \<and>
     prefix (failed_messages s) (failed_messages s')"
proof (induction cs arbitrary: i s w)
  case Nil
  then show ?case by simp
next
  case (Cons c cs)
  show ?case
  proof (cases "str_format (fmt_ext e) m c")
    case (Inl err)
    then show ?thesis using Cons.prems by (simp add: Let_def)
  next
    case (Inr msg)
    obtain ok s1 w1 where sm: "send_message e (dict_get c (py ''phone_number'') (py ''''))
        msg (dict_get c (py ''name'') (py ''Unknown'')) (s, w) = (ok, s1, w1)"
      by (metis prod_cases3)
    note f1 = send_message_fields[OF sm]
    show ?thesis
    proof (cases "i < n")
      case True
      show ?thesis
      proof (cases "time_sleep d w1")
        case (Inl err)
        then show ?thesis using Cons.prems Inr sm True f1 by (simp add: Let_def)
      next
        case w2: (Inr w2)
        have "send_loop e m d n (Suc i) cs (s1, w2) = (exc, s', w')"
          using Cons.prems Inr sm True w2 by (simp add: Let_def)
        from Cons.IH[OF this] f1 time_sleep_fields[OF w2] show ?thesis
          by (auto intro: prefix_order.trans)
      qed
    next
      case False
      have "send_loop e m d n (Suc i) cs (s1, w1) = (exc, s', w')"
        using Cons.prems Inr sm False by (simp add: Let_def)
      from Cons.IH[OF this] f1 show ?thesis
        by (auto intro: prefix_order.trans)
    qed
  qed
qed

lemma send_loop_append:
  "send_loop e m d n i (xs @ ys) sw =
     (case send_loop e m d n i xs sw of
        (Some x, sw1) \<Rightarrow> (Some x, sw1)
      | (None, sw1) \<Rightarrow> send_loop e m d n (i + length xs) ys sw1)"
proof (induction xs arbitrary: i sw)
  case Nil
  then show ?case by simp
next
  case (Cons c cs)
  show ?case
    by (simp add: Let_def Cons.IH split: sum.splits prod.splits option.splits)
qed


lemma send_message_count:
  assumes "send_message e phone message name (s, w) = (ok, s', w')"
    and "driver s \<noteq> None" and "0 \<le> wait_time s" and "wait_time s \<le> 9223372036"
  shows "length (sent_messages s') + length (failed_messages s')
           = Suc (length (sent_messages s) + length (failed_messages s))"
  using assms
  by (auto simp: send_message_def send_failed_def time_sleep_def Let_def
      split: option.splits sum.splits if_splits)

lemma send_loop_count:
  "send_loop e m d n i cs (s, w) = (None, s', w') \<Longrightarrow> driver s \<noteq> None \<Longrightarrow>
   0 \<le> wait_time s \<Longrightarrow> wait_time s \<le> 9223372036 \<Longrightarrow>
     length (sent_messages s') + length (failed_messages s')
       = length (sent_messages s) + length (failed_messages s) + length cs"
proof (induction cs arbitrary: i s w)
  case Nil
  then show ?case by simp
next
  case (Cons c cs)
  show ?case
  proof (cases "str_format (fmt_ext e) m c")
    case (Inl err)
    then show ?thesis using Cons.prems by (simp add: Let_def)
  next
    case (Inr msg)
    obtain ok s1 w1 where sm: "send_message e (dict_get c (py ''phone_number'') (py ''''))
        msg (dict_get c (py ''name'') (py ''Unknown'')) (s, w) = (ok, s1, w1)"
      by (metis prod_cases3)
    note f1 = send_message_fields[OF sm]
    note c1 = send_message_count[OF sm Cons.prems(2,3,4)]
    show ?thesis
    proof (cases "i < n")
      case True
      show ?thesis
      proof (cases "time_sleep d w1")
        case (Inl err)
        then show ?thesis using Cons.prems Inr sm True by (simp add: Let_def)
      next
        case w2: (Inr w2)
        have "send_loop e m d n (Suc i) cs (s1, w2) = (None, s', w')"
          using Cons.prems Inr sm True w2 by (simp add: Let_def)
        from Cons.IH[OF this] f1 c1 Cons.prems show ?thesis by simp
      qed
    next
      case False
      have "send_loop e m d n (Suc i) cs (s1, w1) = (None, s', w')"
        using Cons.prems Inr sm False by (simp add: Let_def)
      from Cons.IH[OF this] f1 c1 Cons.prems show ?thesis by simp
    qed
  qed
qed

lemma send_bulk_messages_cases:
  assumes "send_bulk_messages e m d (s, w) = (r, s', w')"
  obtains
    (no_contacts) "contacts s = []" "r = Inr None" "s' = s" "w' = w"
  | (not_opened) s0 w0 where "contacts s \<noteq> []" "open_whatsapp_web e (s, w) = (False, s0, w0)"
      "r = Inr None" "s' = s0" "w' = w0"
  | (looped) s0 w0 exc s1 w1 sm' where "contacts s \<noteq> []"
      "open_whatsapp_web e (s, w) = (True, s0, w0)"
      "send_loop e m d (length (contacts s)) 1 (contacts s) (s0, w0) = (exc, s1, w1)"
      "close_browser (s1, w1) = (s', w')"
      "summary s' = Inr sm'"
      "r = (case exc of Some x \<Rightarrow> Inl x | None \<Rightarrow> Inr (Some sm'))"
proof (cases "contacts s = []")
  case True
  have "r = Inr None \<and> s' = s \<and> w' = w"
    using assms True by (simp add: send_bulk_messages_def)
  then show ?thesis using no_contacts[OF True] by blast
next
  case False
  obtain opened s0 w0 where op: "open_whatsapp_web e (s, w) = (opened, s0, w0)"
    by (metis prod_cases3)
  have cs0: "contacts s0 = contacts s" using open_whatsapp_web_fields[OF op] by simp
  show ?thesis
  proof (cases opened)
    case no: False
    have op': "open_whatsapp_web e (s, w) = (False, s0, w0)" using op no by simp
    have "r = Inr None \<and> s' = s0 \<and> w' = w0"
      using assms False op' by (simp add: send_bulk_messages_def)
    then show ?thesis using not_opened[OF False op'] by blast
  next
    case True
    obtain exc s1 w1 where lp:
      "send_loop e m d (length (contacts s)) 1 (contacts s) (s0, w0) = (exc, s1, w1)"
      by (metis prod_cases3)
    obtain s2 w2 where cb: "close_browser (s1, w1) = (s2, w2)" by (metis surj_pair)
    have op': "open_whatsapp_web e (s, w) = (True, s0, w0)" using op True by simp
    obtain sm2 where sm2: "summary s2 = Inr sm2" using summary_returns by blast
    have unf: "send_bulk_messages e m d (s, w) =
        (case exc of Some x \<Rightarrow> (Inl x, s2, w2) | None \<Rightarrow> (Inr (Some sm2), s2, w2))"
      using False op' lp cb cs0 sm2
      by (simp add: send_bulk_messages_def Let_def split: option.splits)
    have "s' = s2 \<and> w' = w2 \<and>
          r = (case exc of Some x \<Rightarrow> Inl x | None \<Rightarrow> Inr (Some sm2))"
      using assms unfolding unf by (cases exc) auto
    then have "close_browser (s1, w1) = (s', w')" and "summary s' = Inr sm2"
      and "r = (case exc of Some x \<Rightarrow> Inl x | None \<Rightarrow> Inr (Some sm2))"
      using cb sm2 by auto
    then show ?thesis using looped[OF False op' lp] by blast
  qed
qed

lemma send_bulk_messages_count:
  assumes "send_bulk_messages e m d (s, w) = (Inr (Some sm), s', w')"
    and "0 \<le> wait_time s" and "wait_time s \<le> 9223372036"
  shows "length (sent_messages s') + length (failed_messages s')
           = length (sent_messages s) + length (failed_messages s) + total sm"
  using assms(1)
proof (cases rule: send_bulk_messages_cases)
  case no_contacts
  then show ?thesis by simp
next
  case (not_opened s0 w0)
  then show ?thesis by simp
next
  case (looped s0 w0 exc s1 w1 sm')
  note of = open_whatsapp_web_fields[OF looped(2)]
  have exc: "exc = None" using looped(6) by (cases exc) auto
  have "sm = sm'" using looped(6) exc by simp
  then have sm: "total sm = length (contacts s')"
    using looped(5) by (auto simp: summary_returns)
  note cb = close_browser_fields[OF looped(4)]
  note lf = send_loop_fields[OF looped(3)]
  have "length (sent_messages s1) + length (failed_messages s1)
          = length (sent_messages s0) + length (failed_messages s0) + length (contacts s)"
    using send_loop_count[of e m d _ 1 "contacts s" s0 w0 s1 w1] looped(3) exc of assms(2,3)
    by simp
  then show ?thesis using of cb lf sm by simp
qed

lemma send_bulk_messages_accumulates:
  assumes "send_bulk_messages e m d (s, w) = (r, s', w')"
  shows "prefix (sent_messages s) (sent_messages s') \<and>
       prefix (failed_messages s) (failed_messages s') \<and>
       (\<forall>sm. r = Inr (Some sm) \<longrightarrow>
          sent sm = length (sent_messages s') \<and> failed sm = length (failed_messages s') \<and>
          total sm = length (contacts s))"
  using assms
proof (cases rule: send_bulk_messages_cases)
  case no_contacts
  then show ?thesis by simp
next
  case (not_opened s0 w0)
  then show ?thesis using open_whatsapp_web_fields[OF not_opened(2)] by simp
next
  case (looped s0 w0 exc s1 w1 sm')
  note of = open_whatsapp_web_fields[OF looped(2)]
  note cb = close_browser_fields[OF looped(4)]
  note lf = send_loop_fields[OF looped(3)]
  show ?thesis using of cb lf looped(5,6)
    by (auto simp: summary_returns split: option.splits)
qed

lemma send_message_trace:
  assumes "send_message e phone message name (s, w) = (ok, s', w')"
    and "driver s \<noteq> None" and "0 \<le> wait_time s" and "wait_time s \<le> 9223372036"
  shows "\<exists>url answer. trace w' = trace w @ Chat url answer #
           (if answer = None then [Pause (wait_time s)] else [])"
proof -
  let ?url = "py ''https://web.whatsapp.com/send/?phone='' @ format_phone_number phone
                @ py ''&text='' @ message"
  have "trace w' = trace w @ Chat ?url (chat e (tick w) ?url) #
           (if chat e (tick w) ?url = None then [Pause (wait_time s)] else [])"
    using assms
    by (auto simp: send_message_def send_failed_def time_sleep_def Let_def
        split: option.splits sum.splits if_splits)
  then show ?thesis by blast
qed

lemma send_loop_trace:
  "send_loop e m d n i cs (s, w) = (None, s', w') \<Longrightarrow> driver s \<noteq> None \<Longrightarrow>
   0 \<le> wait_time s \<Longrightarrow> wait_time s \<le> 9223372036 \<Longrightarrow> i + length cs = Suc n \<Longrightarrow>
     \<exists>attempts. length attempts = length cs
        \<and> trace w' = trace w @ pause_pattern (wait_time s) d attempts"
proof (induction cs arbitrary: i s w)
  case Nil
  then show ?case by simp
next
  case (Cons c cs)
  show ?case
  proof (cases "str_format (fmt_ext e) m c")
    case (Inl err)
    then show ?thesis using Cons.prems by (simp add: Let_def)
  next
    case (Inr msg)
    obtain ok s1 w1 where sm: "send_message e (dict_get c (py ''phone_number'') (py ''''))
        msg (dict_get c (py ''name'') (py ''Unknown'')) (s, w) = (ok, s1, w1)"
      by (metis prod_cases3)
    note f1 = send_message_fields[OF sm]
    obtain url answer where t1: "trace w1 = trace w @ Chat url answer #
           (if answer = None then [Pause (wait_time s)] else [])"
      using send_message_trace[OF sm Cons.prems(2,3,4)] by blast
    have d1: "driver s1 \<noteq> None" "0 \<le> wait_time s1" "wait_time s1 \<le> 9223372036"
      using f1 Cons.prems by simp_all
    have idx: "Suc i + length cs = Suc n" using Cons.prems(5) by simp
    show ?thesis
    proof (cases "i < n")
      case True
      then have ne: "cs \<noteq> []" using Cons.prems(5) by auto
      show ?thesis
      proof (cases "time_sleep d w1")
        case (Inl err)
        then show ?thesis using Cons.prems Inr sm True by (simp add: Let_def)
      next
        case w2: (Inr w2)
        have "send_loop e m d n (Suc i) cs (s1, w2) = (None, s', w')"
          using Cons.prems Inr sm True w2 by (simp add: Let_def)
        from Cons.IH[OF this d1 idx] obtain later where
          l: "length later = length cs" "trace w' = trace w2 @ pause_pattern (wait_time s1) d later"
          by blast
        have lne: "later \<noteq> []" using l(1) ne by auto
        have "trace w' = trace w @ pause_pattern (wait_time s) d ((url, answer) # later)"
          using l(2) t1 time_sleep_fields[OF w2] f1 lne by simp
        moreover have "length ((url, answer) # later) = length (c # cs)" using l(1) by simp
        ultimately show ?thesis by blast
      qed
    next
      case False
      then have e: "cs = []" using Cons.prems(5) by auto
      have "send_loop e m d n (Suc i) cs (s1, w1) = (None, s', w')"
        using Cons.prems Inr sm False by (simp add: Let_def)
      then have "w' = w1" using e by simp
      then have "trace w' = trace w @ pause_pattern (wait_time s) d [(url, answer)]"
        using t1 by simp
      moreover have "length [(url, answer)] = length (c # cs)" using e by simp
      ultimately show ?thesis by blast
    qed
  qed
qed

section \<open>Phone normalization\<close>

lemma remove_separators_filter:
  "remove_separators s = filter (\<lambda>x. x \<noteq> 45 \<and> x \<noteq> 32 \<and> x \<noteq> 40 \<and> x \<noteq> 41) s"
  by (induction s) (auto simp: remove_separators_def remove_char_def)

lemma remove_separators_idem: "remove_separators (remove_separators s) = remove_separators s"
  by (simp add: remove_separators_filter)

lemma rstrip_fixed_iff: "rstrip s = s \<longleftrightarrow> (s = [] \<or> \<not> is_space (last s))"
proof (cases s rule: rev_cases)
  case Nil
  then show ?thesis by (simp add: rstrip_def)
next
  case (snoc ys y)
  show ?thesis
  proof (cases "is_space y")
    case True
    have "length (rstrip s) \<le> length ys"
      using True snoc length_dropWhile_le[of is_space "rev ys"] by (simp add: rstrip_def)
    then have "rstrip s \<noteq> s" using snoc by auto
    then show ?thesis using True snoc by simp
  next
    case False
    then show ?thesis using snoc by (simp add: rstrip_def)
  qed
qed

lemma rstrip_Cons: "\<not> is_space x \<Longrightarrow> rstrip (x # s) = x # rstrip s"
  by (simp add: rstrip_def dropWhile_append)

lemma strip_Cons: "\<not> is_space x \<Longrightarrow> strip (x # s) = x # rstrip s"
  by (simp add: strip_def lstrip_def rstrip_Cons)

lemma remove_separators_rstrip:
  assumes "remove_separators s = s"
  shows "remove_separators (rstrip s) = rstrip s"
proof -
  have "set (rstrip s) \<subseteq> set s"
    unfolding rstrip_def using set_dropWhileD by fastforce
  moreover have "\<forall>x\<in>set s. x \<noteq> 45 \<and> x \<noteq> 32 \<and> x \<noteq> 40 \<and> x \<noteq> 41"
    using assms unfolding remove_separators_filter filter_id_conv by simp
  ultimately show ?thesis
    unfolding remove_separators_filter by (auto simp: filter_id_conv)
qed

lemma format_phone_number_alt:
  "format_phone_number p =
     (let q = remove_separators (strip p)
      in if \<not> startswith q [43] then
           (if \<not> startswith q [57, 49] then [43, 57, 49] @ q else 43 # q)
         else q)"
  by (simp add: format_phone_number_def py_def Let_def)

lemma format_phone_number_shape:
  "\<exists>r. format_phone_number p = 43 # r \<and> remove_separators r = r"
proof -
  let ?q = "remove_separators (strip p)"
  have cc: "remove_separators ?q = ?q" by (rule remove_separators_idem)
  show ?thesis
  proof (cases "startswith ?q [43]")
    case True
    then obtain r where r: "?q = 43 # r" by (cases ?q) (auto simp: startswith_def)
    have "remove_separators (43 # r) = 43 # r" using r cc by metis
    then have "remove_separators r = r" by (simp add: remove_separators_filter)
    then show ?thesis using True r by (simp add: format_phone_number_alt Let_def)
  next
    case False
    show ?thesis
    proof (cases "startswith ?q [57, 49]")
      case True
      have "format_phone_number p = 43 # ?q"
        using False True by (simp add: format_phone_number_alt Let_def)
      then show ?thesis using cc by blast
    next
      case no91: False
      have "format_phone_number p = 43 # (57 # 49 # ?q)"
        using False no91 by (simp add: format_phone_number_alt Let_def)
      moreover have "remove_separators (57 # 49 # ?q) = 57 # 49 # ?q"
        using cc by (simp add: remove_separators_filter)
      ultimately show ?thesis by blast
    qed
  qed
qed

lemma format_phone_number_twice:
  "format_phone_number (format_phone_number p) = rstrip (format_phone_number p)"
proof -
  obtain r where r: "format_phone_number p = 43 # r" "remove_separators r = r"
    using format_phone_number_shape by blast
  have ns: "\<not> is_space 43" by (simp add: is_space_def)
  have s: "strip (43 # r) = 43 # rstrip r" using ns by (rule strip_Cons)
  have c: "remove_separators (43 # rstrip r) = 43 # rstrip r"
    using remove_separators_rstrip[OF r(2)] by (simp add: remove_separators_filter)
  have "format_phone_number (43 # r) = 43 # rstrip r"
    by (simp add: format_phone_number_alt s c startswith_def)
  then show ?thesis using r ns by (simp add: rstrip_Cons)
qed

lemma format_phone_number_idem_iff:
  "format_phone_number (format_phone_number p) = format_phone_number p \<longleftrightarrow>
     \<not> is_space (last (format_phone_number p))"
  using format_phone_number_shape[of p]
  by (auto simp: format_phone_number_twice rstrip_fixed_iff)

lemma format_phone_number_idem_spaces:
  assumes "\<forall>c\<in>set p. is_space c \<longrightarrow> c = 32"
  shows "format_phone_number (format_phone_number p) = format_phone_number p"
proof -
  obtain r where r: "format_phone_number p = 43 # r"
    using format_phone_number_shape by blast
  let ?q = "remove_separators (strip p)"
  have sub: "set ?q \<subseteq> {x \<in> set p. x \<noteq> 32}"
  proof -
    have "set (strip p) \<subseteq> set p"
      unfolding strip_def rstrip_def lstrip_def
      by (metis set_dropWhileD set_rev subsetI)
    then show ?thesis by (auto simp: remove_separators_filter)
  qed
  have nsq: "\<forall>x\<in>set ?q. \<not> is_space x" using sub assms by auto
  have "\<forall>x\<in>set (format_phone_number p). \<not> is_space x"
    using nsq by (auto simp: format_phone_number_alt Let_def is_space_def)
  then have "\<not> is_space (last (format_phone_number p))"
    using r by (metis last_in_set list.distinct(1))
  then show ?thesis by (simp add: format_phone_number_idem_iff)
qed

text \<open>
  C6, as stated: normalizing twice gives the same as normalizing once, for every input
  string.  This fails for the input of \<open>12\<close>, a tab and a hyphen: the tab is no longer
  at the end when \<open>strip\<close> runs, but it is at the end of the first result, and the
  second normalization strips it.
\<close>

theorem format_phone_number_not_idempotent:
  "format_phone_number (format_phone_number (py ''12'' @ [9] @ py ''-''))
     \<noteq> format_phone_number (py ''12'' @ [9] @ py ''-'')"
  by (simp add: phone_defs)

text \<open>
  C6, amended: normalization is idempotent exactly on the inputs whose normalized form
  does not end in a whitespace character, in particular on every input whose only
  whitespace characters are spaces; and the four examples normalize to
  \<open>+919876543210\<close>.
\<close>

theorem format_phone_number_idempotent:
  "(format_phone_number (format_phone_number p) = format_phone_number p \<longleftrightarrow>
      \<not> is_space (last (format_phone_number p)))
   \<and> ((\<forall>c\<in>set p. is_space c \<longrightarrow> c = 32) \<longrightarrow>
        format_phone_number (format_phone_number p) = format_phone_number p)
   \<and> format_phone_number (py ''+919876543210'') = py ''+919876543210''
   \<and> format_phone_number (py ''9876543210'') = py ''+919876543210''
   \<and> format_phone_number (py ''91 9876 543210'') = py ''+919876543210''
   \<and> format_phone_number (py ''(98)76543210'') = py ''+919876543210''"
proof -
  have e1: "format_phone_number (py ''+919876543210'') = py ''+919876543210''"
    by (simp add: phone_defs)
  have e2: "format_phone_number (py ''9876543210'') = py ''+919876543210''"
    by (simp add: phone_defs)
  have e3: "format_phone_number (py ''91 9876 543210'') = py ''+919876543210''"
    by (simp add: phone_defs)
  have e4: "format_phone_number (py ''(98)76543210'') = py ''+919876543210''"
    by (simp add: phone_defs)
  show ?thesis
    using format_phone_number_idem_iff[of p] format_phone_number_idem_spaces[of p] e1 e2 e3 e4
    by blast
qed

theorem format_phone_number_idempotent_witness:
  "format_phone_number (format_phone_number (py ''91 9876 543210''))
     = format_phone_number (py ''91 9876 543210'')
   \<and> \<not> is_space (last (format_phone_number (py ''91 9876 543210'')))"
proof -
  have h: "\<forall>c\<in>set (py ''91 9876 543210''). is_space c \<longrightarrow> c = 32"
    by (simp add: py_def is_space_def)
  show ?thesis
    using h format_phone_number_idempotent[of "py ''91 9876 543210''"] by blast
qed

section \<open>Sending without a browser\<close>

text \<open>
  C9: when no browser handle is live (\<open>driver\<close> is \<open>None\<close>), \<open>send_message\<close> returns
  \<open>False\<close> and leaves the sender, so both outcome sequences, and the world unchanged.
\<close>

theorem send_message_without_driver:
  "driver s = None \<Longrightarrow> send_message e phone message name (s, w) = (False, s, w)"
  by (simp add: send_message_def)

theorem send_message_without_driver_witness:
  "driver (init [] 2) = None
   \<and> send_message ok_env (py ''9876543210'') (py ''Hi'') (py ''Asha'') (init [] 2, world0)
       = (False, init [] 2, world0)"
proof -
  have h: "driver (init [] 2) = None" by (simp add: init_def)
  show ?thesis
    using h send_message_without_driver[OF h, of ok_env "py ''9876543210''" "py ''Hi''"
      "py ''Asha''" world0]
    by simp
qed

section \<open>Row ranges of the dashboard\<close>

text \<open>
  C7: for \<open>1 \<le> start_row \<le> end_row \<le> n\<close> the selected contacts are exactly those at the
  1-based positions \<open>start_row\<close> to \<open>end_row\<close>, in load order.
\<close>

theorem contacts_to_send_rows:
  assumes "1 \<le> start_row" and "start_row \<le> end_row" and "end_row \<le> int (length cs)"
  shows "contacts_to_send cs start_row end_row
           = map (\<lambda>k. cs ! (k - 1)) [nat start_row ..< Suc (nat end_row)]"
proof (rule nth_equalityI)
  show "length (contacts_to_send cs start_row end_row)
          = length (map (\<lambda>k. cs ! (k - 1)) [nat start_row ..< Suc (nat end_row)])"
    using assms by (auto simp: contacts_to_send_def py_slice_def Let_def)
next
  fix i
  assume "i < length (contacts_to_send cs start_row end_row)"
  then have i: "i < nat (end_row - (start_row - 1))"
    using assms by (auto simp: contacts_to_send_def py_slice_def Let_def)
  have "contacts_to_send cs start_row end_row ! i = cs ! (nat (start_row - 1) + i)"
    using assms i by (auto simp: contacts_to_send_def py_slice_def Let_def)
  moreover have "map (\<lambda>k. cs ! (k - 1)) [nat start_row ..< Suc (nat end_row)] ! i
                   = cs ! (nat start_row + i - 1)"
  proof -
    have len: "i < length [nat start_row ..< Suc (nat end_row)]"
      using assms i by (simp del: upt_Suc)
    have "[nat start_row ..< Suc (nat end_row)] ! i = nat start_row + i"
      using assms i by (intro nth_upt) linarith
    then show ?thesis using len by (simp del: upt_Suc)
  qed
  moreover have "nat (start_row - 1) + i = nat start_row + i - 1"
    using assms by auto
  ultimately show "contacts_to_send cs start_row end_row ! i
                     = map (\<lambda>k. cs ! (k - 1)) [nat start_row ..< Suc (nat end_row)] ! i"
    by simp
qed

theorem contacts_to_send_rows_witness:
  "(1::int) \<le> 2 \<and> (2::int) \<le> 3 \<and> (3::int) \<le> int (length [asha, ravi, meena, kiran, divya])
   \<and> contacts_to_send [asha, ravi, meena, kiran, divya] 2 3 = [ravi, meena]"
proof -
  have h: "(3::int) \<le> int (length [asha, ravi, meena, kiran, divya])" by simp
  have "[nat 2 ..< Suc (nat 3)] = [2, 3]" by (simp add: upt_rec)
  then show ?thesis
    using h contacts_to_send_rows[of 2 3 "[asha, ravi, meena, kiran, divya]"] by simp
qed

section \<open>The two success rates\<close>

text \<open>
  C8: the report divides by \<open>len(sent) + len(failed)\<close>, the run summary by the number of
  contacts, each behind its guard, so both are returned; when the two counts are equal,
  so are the two rates.
\<close>

theorem report_rate_equals_run_rate:
  "\<exists>rep sm. get_report s = Inr rep \<and> summary s = Inr sm
     \<and> report_success_rate (report_summary rep)
         = (if length (sent_messages s) + length (failed_messages s) = 0 then 0
            else of_nat (length (sent_messages s))
                   / of_nat (length (sent_messages s) + length (failed_messages s)) * 100)
     \<and> success_rate sm
         = (if length (contacts s) = 0 then 0
            else of_nat (length (sent_messages s)) / of_nat (length (contacts s)) * 100)
     \<and> (length (sent_messages s) + length (failed_messages s) = length (contacts s) \<longrightarrow>
          report_success_rate (report_summary rep) = success_rate sm)"
  by (auto simp: get_report_returns summary_returns)

theorem report_rate_equals_run_rate_witness:
  "length (sent_messages half_sent) + length (failed_messages half_sent)
     = length (contacts half_sent)
   \<and> (\<exists>rep sm. get_report half_sent = Inr rep \<and> summary half_sent = Inr sm
         \<and> report_success_rate (report_summary rep) = 50 \<and> success_rate sm = 50)"
proof -
  have h: "length (sent_messages half_sent) + length (failed_messages half_sent)
             = length (contacts half_sent)"
    by (simp add: half_sent_def init_def)
  obtain rep sm where r: "get_report half_sent = Inr rep" "summary half_sent = Inr sm"
    and eq: "length (sent_messages half_sent) + length (failed_messages half_sent)
               = length (contacts half_sent) \<longrightarrow>
             report_success_rate (report_summary rep) = success_rate sm"
    using report_rate_equals_run_rate[of half_sent] by blast
  have "summary half_sent
          = Inr \<lparr>total = 2, sent = 1, failed = 1, success_rate = 50\<rparr>"
    by (simp add: summary_def true_div_def times_100_def half_sent_def init_def)
  then have "success_rate sm = 50" using r(2) by auto
  moreover have "report_success_rate (report_summary rep) = 50"
    using eq h \<open>success_rate sm = 50\<close> by simp
  ultimately show ?thesis using h r by blast
qed

section \<open>A template field that the record lacks\<close>

text \<open>
  C1, as stated: a formatting failure is recorded as a Failed outcome for that contact and
  does not reach the caller.  For the template \<open>Hi {missing}\<close> and one contact the call
  ends with the \<open>KeyError\<close>, and \<open>failed_messages\<close> is still empty.
\<close>

theorem format_failure_not_recorded:
  "send_bulk_messages ok_env (py ''Hi {missing}'') 5 ((init [] 2)\<lparr>contacts := [asha]\<rparr>, world0)
     = (Inl (FormatRaised (KeyError (py ''missing''))),
        (init [] 2)\<lparr>contacts := [asha]\<rparr>,
        world0\<lparr>next_handle := 1, tick := 1\<rparr>)"
  by (simp add: run_defs)

text \<open>
  C1, amended: \<open>message.format\<close> runs in the loop of \<open>send_bulk_messages\<close>, outside the
  handler of \<open>send_message\<close>.  When it fails for a contact, as it does for a field that
  the record lacks (lemma \<open>str_format_missing_field\<close>), the loop stops there: the state
  is the one the contacts before it left, nothing is appended for this contact or a
  later one, the \<open>finally\<close> block closes the browser, and the exception reaches the
  caller.
\<close>

theorem format_failure_propagates:
  assumes "contacts s = before @ c # rest"
    and "open_whatsapp_web e (s, w) = (True, sw0)"
    and "send_loop e m d (length (contacts s)) 1 before sw0 = (None, sw1)"
    and "str_format (fmt_ext e) m c = Inl err"
  shows "send_bulk_messages e m d (s, w) = (Inl (FormatRaised err), close_browser sw1)
         \<and> sent_messages (fst (close_browser sw1)) = sent_messages (fst sw1)
         \<and> failed_messages (fst (close_browser sw1)) = failed_messages (fst sw1)"
proof -
  obtain s0 w0 where sw0: "sw0 = (s0, w0)" by (cases sw0)
  obtain s1 w1 where sw1: "sw1 = (s1, w1)" by (cases sw1)
  have cs0: "contacts s0 = contacts s"
    using open_whatsapp_web_fields[of e s w True s0 w0] assms(2) sw0 by simp
  have stop: "send_loop e m d (length (contacts s)) (1 + length before) (c # rest) sw1
                = (Some (FormatRaised err), sw1)"
    using assms(4) by (simp add: Let_def)
  have "send_loop e m d (length (contacts s)) 1 (contacts s) sw0 = (Some (FormatRaised err), sw1)"
    using assms(1,3) stop by (simp add: send_loop_append)
  then have "send_bulk_messages e m d (s, w) = (Inl (FormatRaised err), close_browser sw1)"
    using assms(1,2) cs0 sw0 by (simp add: send_bulk_messages_def Let_def)
  moreover obtain s2 w2 where cb: "close_browser (s1, w1) = (s2, w2)" by (metis surj_pair)
  ultimately show ?thesis using close_browser_fields[OF cb] sw1 cb by simp
qed

theorem format_failure_propagates_witness:
  "send_bulk_messages ok_env (py ''Hi {city}'') 5
       ((init [] 2)\<lparr>contacts := [asha(py ''city'' \<mapsto> py ''Pune''), ravi]\<rparr>, world0)
     = (Inl (FormatRaised (KeyError (py ''city''))),
        close_browser (snd (send_loop ok_env (py ''Hi {city}'') 5 2 1
          [asha(py ''city'' \<mapsto> py ''Pune'')]
          (snd (open_whatsapp_web ok_env
             ((init [] 2)\<lparr>contacts := [asha(py ''city'' \<mapsto> py ''Pune''), ravi]\<rparr>, world0))))))
   \<and> length (sent_messages (fst (snd (send_bulk_messages ok_env (py ''Hi {city}'') 5
       ((init [] 2)\<lparr>contacts := [asha(py ''city'' \<mapsto> py ''Pune''), ravi]\<rparr>, world0))))) = 1
   \<and> failed_messages (fst (snd (send_bulk_messages ok_env (py ''Hi {city}'') 5
       ((init [] 2)\<lparr>contacts := [asha(py ''city'' \<mapsto> py ''Pune''), ravi]\<rparr>, world0)))) = []"
proof -
  let ?pune = "asha(py ''city'' \<mapsto> py ''Pune'')"
  let ?s = "(init [] 2)\<lparr>contacts := [?pune, ravi]\<rparr>"
  let ?sw0 = "snd (open_whatsapp_web ok_env (?s, world0))"
  let ?lp = "send_loop ok_env (py ''Hi {city}'') 5 2 1 [?pune] ?sw0"
  have h1: "contacts ?s = [?pune] @ ravi # []" by (simp add: init_def)
  have len: "length (contacts ?s) = 2" by (simp add: init_def)
  have "fst (open_whatsapp_web ok_env (?s, world0)) = True"
    by (simp add: open_whatsapp_web_def ok_env_def world0_def start_chrome_def)
  then have h2: "open_whatsapp_web ok_env (?s, world0) = (True, ?sw0)"
    by (simp add: prod_eq_iff)
  have lpv: "fst ?lp = None
       \<and> length (sent_messages (fst (snd ?lp))) = 1 \<and> failed_messages (fst (snd ?lp)) = []"
    by (simp add: run_defs)
  then have h3: "send_loop ok_env (py ''Hi {city}'') 5 (length (contacts ?s)) 1 [?pune] ?sw0
                   = (None, snd ?lp)"
    unfolding len by (simp add: prod_eq_iff)
  have h4: "str_format (fmt_ext ok_env) (py ''Hi {city}'') ravi = Inl (KeyError (py ''city''))"
    by (simp add: run_defs)
  show ?thesis
    using format_failure_propagates[OF h1 h2 h3 h4] lpv by simp
qed

section \<open>A session that does not open\<close>

text \<open>
  C4, as stated: a failed authentication wait is surfaced as an error distinct from the
  other failure modes.  The call returns \<open>None\<close>, which is also what it returns when no
  contacts are loaded.
\<close>

theorem open_failure_like_no_contacts:
  "fst (send_bulk_messages auth_fail_env (py ''Hi {name}'') 5
          ((init [] 2)\<lparr>contacts := [asha]\<rparr>, world0))
     = fst (send_bulk_messages ok_env (py ''Hi {name}'') 5 (init [] 2, world0))"
  by (simp add: run_defs auth_fail_env_def)

text \<open>
  C4, amended: when \<open>open_whatsapp_web\<close> returns \<open>False\<close>, the run returns \<open>None\<close> (as it
  does without contacts), no outcome is appended, no chat is attempted and no pause
  made, the sender holds no handle afterwards, and every process alive afterwards was
  alive before: what this call started has been quit.
\<close>

theorem open_failure_aborts:
  assumes "contacts s \<noteq> []" and "fst (open_whatsapp_web e (s, w)) = False"
  shows "\<exists>s' w'. send_bulk_messages e m d (s, w) = (Inr None, s', w')
           \<and> sent_messages s' = sent_messages s \<and> failed_messages s' = failed_messages s
           \<and> trace w' = trace w \<and> driver s' = None
           \<and> set (live w') \<subseteq> set (live w) \<and> (driver s = None \<longrightarrow> live w' = live w)"
proof -
  obtain s0 w0 where op: "open_whatsapp_web e (s, w) = (False, s0, w0)"
    using assms(2) by (metis fst_conv prod_cases3)
  have "send_bulk_messages e m d (s, w) = (Inr None, s0, w0)"
    using assms(1) op by (simp add: send_bulk_messages_def)
  then show ?thesis
    using open_whatsapp_web_fields[OF op] open_whatsapp_web_failed[OF op] by simp
qed

theorem open_failure_aborts_witness:
  "contacts ((init [] 2)\<lparr>contacts := [asha]\<rparr>) \<noteq> []
   \<and> fst (open_whatsapp_web auth_fail_env ((init [] 2)\<lparr>contacts := [asha]\<rparr>, world0)) = False
   \<and> (\<exists>s' w'. send_bulk_messages auth_fail_env (py ''Hi {name}'') 5
                  ((init [] 2)\<lparr>contacts := [asha]\<rparr>, world0) = (Inr None, s', w')
         \<and> sent_messages s' = [] \<and> failed_messages s' = [] \<and> trace w' = []
         \<and> driver s' = None \<and> live w' = [])"
proof -
  let ?s = "(init [] 2)\<lparr>contacts := [asha]\<rparr>"
  have h1: "contacts ?s \<noteq> []" by (simp add: init_def)
  have h2: "fst (open_whatsapp_web auth_fail_env (?s, world0)) = False"
    by (simp add: open_whatsapp_web_def auth_fail_env_def world0_def start_chrome_def
        close_browser_def driver_quit_def init_def)
  show ?thesis
    using h1 h2 open_failure_aborts[OF h1 h2, of "py ''Hi {name}''" 5]
    by (auto simp: init_def world0_def)
qed

section \<open>A run without contacts\<close>

text \<open>
  C5, as stated: with zero contacts the summary of the run has a success rate of 0.
  There is no summary: the call returns \<open>None\<close>.
\<close>

theorem no_contacts_returns_none:
  "fst (send_bulk_messages ok_env (py ''Hi {name}'') 5 (init [] 2, world0)) = Inr None"
  by (simp add: send_bulk_messages_def init_def)

text \<open>
  C5, amended: when no contacts are loaded, \<open>send_bulk_messages\<close> returns \<open>None\<close> and
  changes nothing, so every summary that a run returns has a total of at least 1.  The
  division is guarded all the same: \<open>summary\<close> divides only by the length of a non-empty
  contact list, so it always returns its dict, with a rate of 0 for an empty list, and no
  run raises \<open>ZeroDivisionError\<close>.
\<close>

theorem no_contacts_no_summary:
  "(contacts s = [] \<longrightarrow>
      send_bulk_messages e m d (s, w) = (Inr None, s, w)
      \<and> (\<exists>sm. summary s = Inr sm \<and> success_rate sm = 0))
   \<and> (\<exists>sm. summary s = Inr sm)
   \<and> (\<forall>err. fst (send_bulk_messages e m d (s, w)) \<noteq> Inl (DivisionRaised err))
   \<and> (\<forall>sm. fst (send_bulk_messages e m d (s, w)) = Inr (Some sm) \<longrightarrow> 0 < total sm)"
proof -
  have a: "contacts s = [] \<longrightarrow>
      send_bulk_messages e m d (s, w) = (Inr None, s, w)
      \<and> (\<exists>sm. summary s = Inr sm \<and> success_rate sm = 0)"
    by (simp add: send_bulk_messages_def summary_returns)
  have b: "\<exists>sm. summary s = Inr sm" by (simp add: summary_returns)
  obtain r s' w' where run: "send_bulk_messages e m d (s, w) = (r, s', w')"
    by (metis prod_cases3)
  have "(\<forall>err. r \<noteq> Inl (DivisionRaised err)) \<and> (\<forall>sm. r = Inr (Some sm) \<longrightarrow> 0 < total sm)"
    using run
  proof (cases rule: send_bulk_messages_cases)
    case no_contacts
    then show ?thesis by simp
  next
    case (not_opened s0 w0)
    then show ?thesis by simp
  next
    case (looped s0 w0 exc s1 w1 sm')
    have cs: "contacts s' = contacts s"
      using open_whatsapp_web_fields[OF looped(2)] send_loop_fields[OF looped(3)]
        close_browser_fields[OF looped(4)] by simp
    have "total sm' = length (contacts s)"
      using looped(5) cs by (auto simp: summary_returns)
    then have "0 < total sm'" using looped(1) by simp
    moreover have "\<forall>x. exc = Some x \<longrightarrow> (\<forall>err. x \<noteq> DivisionRaised err)"
    proof (intro allI impI)
      fix x err
      assume x: "exc = Some x"
      have "\<And>n i cs sw sw'. send_loop e m d n i cs sw = (Some x, sw') \<Longrightarrow> x \<noteq> DivisionRaised err"
      proof -
        fix n i cs sw sw'
        show "send_loop e m d n i cs sw = (Some x, sw') \<Longrightarrow> x \<noteq> DivisionRaised err"
          by (induction cs arbitrary: i sw)
            (auto simp: Let_def split: sum.splits prod.splits if_splits)
      qed
      then show "x \<noteq> DivisionRaised err" using looped(3) x by blast
    qed
    ultimately show ?thesis using looped(6) by (cases exc) auto
  qed
  then show ?thesis using a b run by simp
qed

theorem no_contacts_no_summary_witness:
  "contacts (init [] 2) = []
   \<and> send_bulk_messages ok_env (py ''Hi {name}'') 5 (init [] 2, world0)
       = (Inr None, init [] 2, world0)
   \<and> summary (init [] 2) = Inr \<lparr>total = 0, sent = 0, failed = 0, success_rate = 0\<rparr>"
proof -
  have h: "contacts (init [] 2) = []" by (simp add: init_def)
  have v: "summary (init [] 2) = Inr \<lparr>total = 0, sent = 0, failed = 0, success_rate = 0\<rparr>"
    by (simp add: summary_def init_def)
  show ?thesis
    using h v no_contacts_no_summary[of "init [] 2" ok_env "py ''Hi {name}''" 5 world0]
    by blast
qed

section \<open>Outcomes over successive runs\<close>

text \<open>
  C10: \<open>send_bulk_messages\<close> only appends to \<open>sent_messages\<close> and \<open>failed_messages\<close>; its
  summary counts all their entries, from earlier runs too, against the length of the
  current contact list, so the rate can exceed 100: a second run for one contact after a
  run that sent two messages reports 300.
\<close>

theorem outcomes_accumulate:
  "(send_bulk_messages e m d (s, w) = (r, s', w') \<longrightarrow>
       prefix (sent_messages s) (sent_messages s') \<and>
       prefix (failed_messages s) (failed_messages s') \<and>
       (\<forall>sm. r = Inr (Some sm) \<longrightarrow>
          sent sm = length (sent_messages s') \<and> failed sm = length (failed_messages s') \<and>
          total sm = length (contacts s)))
   \<and> fst first_run = Inr (Some \<lparr>total = 2, sent = 2, failed = 0, success_rate = 100\<rparr>)
   \<and> fst second_run = Inr (Some \<lparr>total = 1, sent = 3, failed = 0, success_rate = 300\<rparr>)"
proof -
  have "fst first_run = Inr (Some \<lparr>total = 2, sent = 2, failed = 0, success_rate = 100\<rparr>)"
    by (simp add: first_run_def run_defs)
  moreover have
    "fst second_run = Inr (Some \<lparr>total = 1, sent = 3, failed = 0, success_rate = 300\<rparr>)"
    by (simp add: second_run_def first_run_def run_defs)
  ultimately show ?thesis
    using send_bulk_messages_accumulates[of e m d s w r s' w'] by blast
qed

theorem outcomes_accumulate_witness:
  "second_run = (fst second_run, fst (snd second_run), snd (snd second_run))
   \<and> prefix (sent_messages (fst (snd first_run))) (sent_messages (fst (snd second_run)))
   \<and> length (sent_messages (fst (snd second_run))) = 3
   \<and> length (contacts ((fst (snd first_run))\<lparr>contacts := [asha]\<rparr>)) = 1"
proof -
  let ?s = "(fst (snd first_run))\<lparr>contacts := [asha]\<rparr>"
  have run: "send_bulk_messages ok_env (py ''Hi {name}'') 5 (?s, snd (snd first_run))
             = (fst second_run, fst (snd second_run), snd (snd second_run))"
    by (simp add: second_run_def)
  have res: "fst second_run
               = Inr (Some \<lparr>total = 1, sent = 3, failed = 0, success_rate = 300\<rparr>)"
    by (simp add: second_run_def first_run_def run_defs)
  have all: "prefix (sent_messages ?s) (sent_messages (fst (snd second_run))) \<and>
       prefix (failed_messages ?s) (failed_messages (fst (snd second_run))) \<and>
       (\<forall>sm. fst second_run = Inr (Some sm) \<longrightarrow>
          sent sm = length (sent_messages (fst (snd second_run))) \<and>
          failed sm = length (failed_messages (fst (snd second_run))) \<and>
          total sm = length (contacts ?s))"
    using run outcomes_accumulate[of ok_env "py ''Hi {name}''" 5 ?s "snd (snd first_run)"
        "fst second_run" "fst (snd second_run)" "snd (snd second_run)"]
    by blast
  have p: "prefix (sent_messages (fst (snd first_run))) (sent_messages (fst (snd second_run)))"
    using all by simp
  have "sent \<lparr>total = 1, sent = 3, failed = 0, success_rate = 300\<rparr>
          = length (sent_messages (fst (snd second_run)))"
    using all res by blast
  then have l: "length (sent_messages (fst (snd second_run))) = 3" by simp
  show ?thesis using p l by simp
qed

section \<open>One outcome for each contact\<close>

text \<open>
  C2 at a failing input: with \<open>wait_time = -1\<close> and one contact whose message is sent,
  \<open>time.sleep\<close> raises inside the \<open>try\<close> block after the entry was appended to
  \<open>sent_messages\<close>, and the handler appends the same contact to \<open>failed_messages\<close>: two
  entries for a total of one.  (For a \<open>wait_time\<close> that \<open>time.sleep\<close> accepts the counts
  agree: lemma \<open>send_bulk_messages_count\<close>.)
\<close>

theorem negative_wait_time_counts_twice:
  "case send_bulk_messages ok_env (py ''Hi {name}'') 5
          ((init [] (- 1))\<lparr>contacts := [asha]\<rparr>, world0) of
     (r, s', w') \<Rightarrow>
       r = Inr (Some \<lparr>total = 1, sent = 1, failed = 1, success_rate = 100\<rparr>)
       \<and> length (sent_messages s') + length (failed_messages s') = 2"
  by (simp add: run_defs)

section \<open>Pauses\<close>

text \<open>
  C3, as stated: no pause after the last contact, and the same pause after a success as
  after a failure.  With \<open>wait_time = 2\<close> and \<open>delay_seconds = 5\<close>, a run for one contact
  ends with a pause of 2; in a run for two contacts the first attempt is followed by
  pauses of 2 and 5 when it succeeds and by a pause of 5 when it fails.
\<close>

theorem pause_after_last_contact:
  "trace (snd (snd (send_bulk_messages ok_env (py ''Hi'') 5
      ((init [] 2)\<lparr>contacts := [asha]\<rparr>, world0))))
     = [Chat (py ''https://web.whatsapp.com/send/?phone=+919876543210&text=Hi'') None, Pause 2]
   \<and> trace (snd (snd (send_bulk_messages ok_env (py ''Hi'') 5
      ((init [] 2)\<lparr>contacts := [asha, asha]\<rparr>, world0))))
     = [Chat (py ''https://web.whatsapp.com/send/?phone=+919876543210&text=Hi'') None,
        Pause 2, Pause 5,
        Chat (py ''https://web.whatsapp.com/send/?phone=+919876543210&text=Hi'') None, Pause 2]
   \<and> trace (snd (snd (send_bulk_messages first_fails_env (py ''Hi'') 5
      ((init [] 2)\<lparr>contacts := [asha, asha]\<rparr>, world0))))
     = [Chat (py ''https://web.whatsapp.com/send/?phone=+919876543210&text=Hi'')
          (Some (py ''timeout'')),
        Pause 5,
        Chat (py ''https://web.whatsapp.com/send/?phone=+919876543210&text=Hi'') None, Pause 2]"
  by (simp add: run_defs phone_defs first_fails_env_def)

text \<open>
  C3, amended: in a run that returns a summary, with a \<open>wait_time\<close> that \<open>time.sleep\<close>
  accepts, every contact makes one chat attempt; the loop pauses \<open>delay_seconds\<close> after
  every attempt but the last, whether it succeeded or failed, and not after the last;
  \<open>send_message\<close> itself pauses \<open>wait_time\<close> after every attempt that succeeded, the last
  included.
\<close>

theorem pauses_of_a_run:
  assumes "send_bulk_messages e m d (s, w) = (Inr (Some sm), s', w')"
    and "0 \<le> wait_time s" and "wait_time s \<le> 9223372036"
  shows "\<exists>attempts. length attempts = length (contacts s)
           \<and> trace w' = trace w @ pause_pattern (wait_time s) d attempts"
  using assms(1)
proof (cases rule: send_bulk_messages_cases)
  case no_contacts
  then show ?thesis by simp
next
  case (not_opened s0 w0)
  then show ?thesis by simp
next
  case (looped s0 w0 exc s1 w1 sm')
  note of = open_whatsapp_web_fields[OF looped(2)]
  have exc: "exc = None" using looped(6) by (cases exc) auto
  note cb = close_browser_fields[OF looped(4)]
  have "\<exists>attempts. length attempts = length (contacts s)
        \<and> trace w1 = trace w0 @ pause_pattern (wait_time s0) d attempts"
    using send_loop_trace[of e m d "length (contacts s)" 1 "contacts s" s0 w0 s1 w1]
      looped(3) exc of assms(2,3) by simp
  then show ?thesis using of cb by simp
qed

theorem pauses_of_a_run_witness:
  "(0::int) \<le> wait_time ((init [] 2)\<lparr>contacts := [asha, ravi]\<rparr>)
   \<and> wait_time ((init [] 2)\<lparr>contacts := [asha, ravi]\<rparr>) \<le> 9223372036
   \<and> first_run = (Inr (Some \<lparr>total = 2, sent = 2, failed = 0, success_rate = 100\<rparr>),
                   fst (snd first_run), snd (snd first_run))
   \<and> (\<exists>attempts. length attempts = 2
         \<and> trace (snd (snd first_run)) = pause_pattern 2 5 attempts)"
proof -
  let ?s = "(init [] 2)\<lparr>contacts := [asha, ravi]\<rparr>"
  have h2: "0 \<le> wait_time ?s" and h3: "wait_time ?s \<le> 9223372036"
    by (simp_all add: init_def)
  have "fst first_run = Inr (Some \<lparr>total = 2, sent = 2, failed = 0, success_rate = 100\<rparr>)"
    by (simp add: first_run_def run_defs)
  then have fr: "first_run
      = (Inr (Some \<lparr>total = 2, sent = 2, failed = 0, success_rate = 100\<rparr>),
         fst (snd first_run), snd (snd first_run))"
    by (simp add: prod_eq_iff)
  then have h1: "send_bulk_messages ok_env (py ''Hi {name}'') 5 (?s, world0)
      = (Inr (Some \<lparr>total = 2, sent = 2, failed = 0, success_rate = 100\<rparr>),
         fst (snd first_run), snd (snd first_run))"
    unfolding first_run_def .
  from pauses_of_a_run[OF h1 h2 h3] obtain attempts where
    a: "length attempts = length (contacts ?s)"
       "trace (snd (snd first_run)) = trace world0 @ pause_pattern (wait_time ?s) 5 attempts"
    by blast
  have "length attempts = 2" using a(1) by (simp add: init_def)
  moreover have "trace (snd (snd first_run)) = pause_pattern 2 5 attempts"
    using a(2) by (simp add: init_def world0_def)
  ultimately have "\<exists>attempts. length attempts = 2
         \<and> trace (snd (snd first_run)) = pause_pattern 2 5 attempts"
    by blast
  then show ?thesis using h2 h3 fr by blast
qed

end
